theory Spec2Isabelle
  imports
    Complex_Main
    "HOL-Library.Multiset"
    "HOL-Library.Char_ord"
    "HOL-Library.List_Lexorder"
    "HOL-Library.Product_Lexorder"
begin

section \<open>The probe worker of \<open>main.py\<close>\<close>

text \<open>
  Python floats are modelled as \<^typ>\<open>real\<close> and Python ints as \<^typ>\<open>int\<close>. The worker
  multiplies the interval by a power of two with an exponent between 1 and 10 and compares
  against 30.0, operations that IEEE doubles carry out exactly on the intervals in use; only
  the subtraction of the elapsed time rounds.
\<close>

subsection \<open>Configuration and probe\<close>

record MonitorConfig =
  host :: string
  port :: int
  interval :: real
  timeout :: real
  sound_on_change :: bool

text \<open>
  The exceptions that can leave \<open>tcp_ping\<close> and the thread's loop.
\<close>

datatype py_error = OSError | ValueError | OverflowError

text \<open>
  CPython keeps a timeout as a signed 64-bit count of nanoseconds. \<open>settimeout\<close> and the
  timed wait on a lock raise \<open>OverflowError\<close> for a number of seconds that does not fit
  (\<open>threading.TIMEOUT_MAX\<close> is this bound, cut to whole seconds, on a 64-bit POSIX build;
  other builds have a lower one).
\<close>

definition time_limit :: real where
  "time_limit = (2 ^ 63 - 1) / 10 ^ 9"

text \<open>
  \<open>tcp_ping\<close> opens a socket, sets its timeout, connects and measures. Creating the socket
  (line 44) and setting the timeout (line 45) come before the \<open>try\<close>: if the system refuses
  the socket, or the timeout is negative or too large, the exception leaves the function.
  What the network does at the connect is an input of the model: either it succeeds after
  some milliseconds, or it raises an exception whose text is kept, and the
  \<open>except Exception\<close> clause turns that into the triple \<open>(False, None, str(e))\<close>.
\<close>

datatype connect_outcome = Connected real | Raised string

definition tcp_ping ::
  "real \<Rightarrow> bool \<Rightarrow> connect_outcome \<Rightarrow> py_error + bool \<times> real option \<times> string option" where
  "tcp_ping timeout_s socket_ok c =
     (if \<not> socket_ok then Inl OSError
      else if timeout_s < 0 then Inl ValueError
      else if timeout_s > time_limit then Inl OverflowError
      else case c of
          Connected latency \<Rightarrow> Inr (True, Some latency, None)
        | Raised e \<Rightarrow> Inr (False, None, Some e))"

text \<open>The dictionary put on the queue after each probe.\<close>

record probe_msg =
  m_ts :: real
  m_ok :: bool
  m_latency :: "real option"
  m_error :: "string option"
  m_host :: string
  m_port :: int

subsection \<open>The thread and its loop\<close>

text \<open>
  \<open>MonitorThread.__init__\<close> sets \<open>_failures = 0\<close> and \<open>_max_backoff = 30.0\<close>; the
  latter is never assigned again. \<open>out_q\<close> is the queue the thread writes to, oldest first.
\<close>

record MonitorThread =
  failures :: int
  out_q :: "probe_msg list"

definition max_backoff :: real where
  "max_backoff = 30"

definition MonitorThread_init :: MonitorThread where
  "MonitorThread_init = \<lparr>failures = 0, out_q = []\<rparr>"

text \<open>
  What one pass of the loop reads from outside the thread: whether the stop event is set at
  the loop head, the shared configuration object, whether the system grants a socket, the
  outcome of the connect, the clock readings, whether the stop event is already set when
  the wait begins (it was set while the probe was in flight), and whether it is set while
  the thread waits, before the wait runs out.
\<close>

record cycle_env =
  env_stop_set :: bool
  env_cfg :: MonitorConfig
  env_socket_ok :: bool
  env_connect :: connect_outcome
  env_ts :: real
  env_elapsed :: real
  env_stop_at_wait :: bool
  env_stop_wait :: bool

text \<open>Line 103: the backoff for a base interval and a failure count.\<close>

definition backoff :: "real \<Rightarrow> int \<Rightarrow> real" where
  "backoff base f = (if f > 0 then min max_backoff (base * 2 ^ nat f) else base)"

text \<open>
  Lines 86 to 104: one probe, the message put on the queue, the new failure count and the
  wait before the next probe. An exception that leaves \<open>tcp_ping\<close> leaves the pass: nothing
  is put on the queue and nothing is counted.
\<close>

definition cycle :: "MonitorThread \<Rightarrow> cycle_env \<Rightarrow> py_error + MonitorThread \<times> real" where
  "cycle w e =
     (case tcp_ping (timeout (env_cfg e)) (env_socket_ok e) (env_connect e) of
        Inl x \<Rightarrow> Inl x
      | Inr (ok, latency, err) \<Rightarrow>
        let msg = \<lparr>m_ts = env_ts e, m_ok = ok, m_latency = latency, m_error = err,
                   m_host = host (env_cfg e), m_port = port (env_cfg e)\<rparr>;
            w1 = w\<lparr>out_q := out_q w @ [msg]\<rparr>;
            w2 = (if ok then w1\<lparr>failures := 0\<rparr>
                  else w1\<lparr>failures := min (failures w1 + 1) 10\<rparr>);
            elapsed = env_elapsed e;
            base = interval (env_cfg e);
            wait = max 0 (backoff base (failures w2) - elapsed)
        in Inr (w2, wait))"

text \<open>
  Line 105, \<open>self._stop.wait(wait)\<close>: an event that is already set answers true at once;
  otherwise the thread waits on a lock with the timeout, which raises for a timeout that is
  too large, and the answer is whether the event was set before the wait ran out.
\<close>

definition stop_wait :: "cycle_env \<Rightarrow> real \<Rightarrow> py_error + bool" where
  "stop_wait e wait =
     (if env_stop_at_wait e then Inr True
      else if wait > time_limit then Inl OverflowError
      else Inr (env_stop_wait e))"

datatype run_status = Running | Stopped | Died py_error

text \<open>
  The loop of \<open>run\<close>, driven by the list of what each pass reads. It returns how the thread
  stands (still in its loop, out of it after a stop, or ended by an exception, which nothing
  in \<open>run\<close> catches), the thread's state, and the waits it has asked for, in order. When
  the list is used up without a stop or an exception the thread is still in its loop.
\<close>

fun run :: "MonitorThread \<Rightarrow> cycle_env list \<Rightarrow> run_status \<times> MonitorThread \<times> real list" where
  "run w [] = (Running, w, [])"
| "run w (e # es) =
     (if env_stop_set e then (Stopped, w, [])
      else case cycle w e of
          Inl x \<Rightarrow> (Died x, w, [])
        | Inr (w', wait) \<Rightarrow>
            (case stop_wait e wait of
               Inl x \<Rightarrow> (Died x, w', [wait])
             | Inr stopped \<Rightarrow>
                 if stopped then (Stopped, w', [wait])
                 else case run w' es of (st, w'', waits) \<Rightarrow> (st, w'', wait # waits)))"

definition status_of :: "run_status \<times> MonitorThread \<times> real list \<Rightarrow> run_status" where
  "status_of r = fst r"

definition thread_of :: "run_status \<times> MonitorThread \<times> real list \<Rightarrow> MonitorThread" where
  "thread_of r = fst (snd r)"

definition waits_of :: "run_status \<times> MonitorThread \<times> real list \<Rightarrow> real list" where
  "waits_of r = snd (snd r)"

section \<open>The sample window\<close>

text \<open>
  \<open>Sparkline\<close> keeps the recent samples in \<open>points\<close>, oldest first. Its constructor takes
  \<open>max_points\<close> (80 when not given); \<open>HostPanel\<close> builds its sparkline with 100. The canvas
  is not modelled.
\<close>

record Sparkline =
  max_points :: int
  points :: "(real \<times> bool) list"

definition Sparkline_init :: "int \<Rightarrow> Sparkline" where
  "Sparkline_init n = \<lparr>max_points = n, points = []\<rparr>"

definition Sparkline_default_max_points :: int where
  "Sparkline_default_max_points = 80"

definition HostPanel_max_points :: int where
  "HostPanel_max_points = 100"

text \<open>
  Python's \<open>x or d\<close> on an optional float: \<open>None\<close> and \<open>0.0\<close> are both falsy and give
  \<open>d\<close>.
\<close>

definition or_else :: "real option \<Rightarrow> real \<Rightarrow> real" where
  "or_else x d = (case x of None \<Rightarrow> d | Some v \<Rightarrow> if v = 0 then d else v)"

text \<open>
  \<open>push\<close>: append, then \<open>pop(0)\<close> when the list has grown past \<open>max_points\<close>. The list
  is not empty at the \<open>pop\<close>, so it cannot raise.
\<close>

definition push :: "Sparkline \<Rightarrow> real option \<Rightarrow> bool \<Rightarrow> Sparkline" where
  "push s latency_ms ok =
     (let v = (or_else latency_ms 0, ok);
          pts = points s @ [v]
      in if int (length pts) > max_points s then s\<lparr>points := tl pts\<rparr>
         else s\<lparr>points := pts\<rparr>)"

fun push_all :: "Sparkline \<Rightarrow> (real option \<times> bool) list \<Rightarrow> Sparkline" where
  "push_all s [] = s"
| "push_all s ((l, ok) # rest) = push_all (push s l ok) rest"

text \<open>
  The numbers \<open>_redraw\<close> computes before it draws (lines 163 to 171). \<open>int(n * 0.95)\<close> is
  the floor of the product for the lengths that occur; on doubles it agrees with the exact
  floor for every length up to 100. An index outside the list would raise.
\<close>

definition lat_vals :: "Sparkline \<Rightarrow> real list" where
  "lat_vals s = (let l = map fst (filter snd (points s)) in if l = [] then [0] else l)"

definition p95_index :: "real list \<Rightarrow> int" where
  "p95_index lat_vals_sorted =
     (if lat_vals_sorted \<noteq> [] then max 0 (\<lfloor>real (length lat_vals_sorted) * (95 / 100)\<rfloor> - 1)
      else 0)"

datatype redraw_scale = NoPoints | IndexError | Scale real real

definition redraw :: "Sparkline \<Rightarrow> redraw_scale" where
  "redraw s =
     (if points s = [] then NoPoints
      else let lat_vals_sorted = sort (lat_vals s);
               i = p95_index lat_vals_sorted
           in if lat_vals_sorted = [] then Scale 0 20
              else if 0 \<le> i \<and> i < int (length lat_vals_sorted) then
                let p95 = lat_vals_sorted ! nat i
                in Scale p95 (max 20 (if p95 = 0 then 20 else p95))
              else IndexError)"

text \<open>The index as the specification words it, for comparison.\<close>

definition spec_p95_index :: "nat \<Rightarrow> int" where
  "spec_p95_index n = max 0 (\<lceil>(95 / 100) * real n\<rceil> - 1)"

section \<open>The host panel\<close>

text \<open>
  Of a \<open>HostPanel\<close> the model keeps the configuration, the queue, the worker, the last
  result, the sparkline and the text of the status label; the other widgets are left out.
  The worker is seen through what the panel asks of it: whether it is alive, whether it was
  told to stop, and its state.
\<close>

record worker_ref =
  w_alive :: bool
  w_stop :: bool
  w_thread :: MonitorThread

datatype status_label = Lbl_Idle | Lbl_Checking string int | Lbl_Online | Lbl_Offline

record HostPanel =
  cfg :: MonitorConfig
  p_out_q :: "probe_msg list"
  worker :: "worker_ref option"
  p_last_ok :: "bool option"
  p_last_latency :: real
  spark :: Sparkline
  status_lbl :: status_label

definition HostPanel_init :: "MonitorConfig \<Rightarrow> HostPanel" where
  "HostPanel_init c =
     \<lparr>cfg = c, p_out_q = [], worker = None, p_last_ok = None, p_last_latency = 10 ^ 12,
      spark = Sparkline_init HostPanel_max_points, status_lbl = Lbl_Idle\<rparr>"

text \<open>\<open>str.strip()\<close> on the characters of one byte: the code points Python counts as space.\<close>

definition isspace :: "char \<Rightarrow> bool" where
  "isspace c = ((of_char c :: nat) \<in> {9, 10, 11, 12, 13, 28, 29, 30, 31, 32, 133, 160})"

definition strip :: "string \<Rightarrow> string" where
  "strip s = rev (dropWhile isspace (rev (dropWhile isspace s)))"

text \<open>
  \<open>HostPanel.start\<close>. \<open>get_defaults\<close> is the callback that returns the application's
  default interval and timeout; its result is the second argument.
\<close>

definition start :: "HostPanel \<Rightarrow> real \<times> real \<Rightarrow> HostPanel" where
  "start p defaults =
     (if (case worker p of None \<Rightarrow> False | Some w \<Rightarrow> w_alive w) then p
      else if strip (host (cfg p)) = [] then p
      else case defaults of (d_interval, d_timeout) \<Rightarrow>
        let c = (cfg p)\<lparr>interval := max (1 / 2) d_interval, timeout := max (1 / 2) d_timeout\<rparr>
        in p\<lparr>cfg := c, p_out_q := [],
              worker := Some \<lparr>w_alive = True, w_stop = False, w_thread = MonitorThread_init\<rparr>,
              status_lbl := Lbl_Checking (host c) (port c)\<rparr>)"

text \<open>
  \<open>HostPanel.__init__\<close> ends with \<open>self.start()\<close>: \<open>HostPanel_init\<close> is the panel
  just before that call, \<open>HostPanel_new\<close> the panel the constructor hands back.
\<close>

definition HostPanel_new :: "MonitorConfig \<Rightarrow> real \<times> real \<Rightarrow> HostPanel" where
  "HostPanel_new c defaults = start (HostPanel_init c) defaults"

text \<open>
  The thread holds the panel's configuration object itself, so what a pass of its loop reads
  as \<open>self.cfg\<close> is the panel's \<open>cfg\<close> at that time. \<open>panel_env\<close> is a pass in which
  the system grants the socket and nobody asks the thread to stop.
\<close>

definition panel_env :: "HostPanel \<Rightarrow> connect_outcome \<Rightarrow> real \<Rightarrow> real \<Rightarrow> cycle_env" where
  "panel_env p c ts elapsed =
     \<lparr>env_stop_set = False, env_cfg = cfg p, env_socket_ok = True, env_connect = c,
      env_ts = ts, env_elapsed = elapsed, env_stop_at_wait = False, env_stop_wait = False\<rparr>"

text \<open>\<open>HostPanel._apply_result\<close>, without the label texts and colours.\<close>

definition apply_result :: "HostPanel \<Rightarrow> probe_msg \<Rightarrow> HostPanel" where
  "apply_result p data =
     (let ok = m_ok data;
          latency = m_latency data
      in p\<lparr>status_lbl := (if ok then Lbl_Online else Lbl_Offline),
            spark := push (spark p) latency ok,
            p_last_ok := Some ok,
            p_last_latency := or_else latency (10 ^ 12)\<rparr>)"

definition get_cfg :: "HostPanel \<Rightarrow> MonitorConfig" where
  "get_cfg p = cfg p"

definition last_ok :: "HostPanel \<Rightarrow> bool" where
  "last_ok p = (case p_last_ok p of None \<Rightarrow> False | Some b \<Rightarrow> b)"

definition last_latency :: "HostPanel \<Rightarrow> real" where
  "last_latency p = p_last_latency p"

section \<open>Ordering the panels\<close>

text \<open>
  A \<^typ>\<open>char\<close> stands for a code point below 256. Of these \<open>str.lower()\<close> changes the
  capitals A to Z and the Latin-1 capitals 192 to 214 and 216 to 222, each to the code point
  32 above it. Strings compare as Python compares them, code point by code point with a
  proper prefix first; tuples compare lexicographically, and \<open>False\<close> is below \<open>True\<close>.
\<close>

definition lower_char :: "char \<Rightarrow> char" where
  "lower_char c =
     (let n = (of_char c :: nat)
      in if (65 \<le> n \<and> n \<le> 90) \<or> (192 \<le> n \<and> n \<le> 214) \<or> (216 \<le> n \<and> n \<le> 222)
         then char_of (n + 32)
         else c)"

definition lower :: "string \<Rightarrow> string" where
  "lower s = map lower_char s"

definition k_latency :: "HostPanel \<Rightarrow> real \<times> string" where
  "k_latency p = (last_latency p, lower (host (get_cfg p)))"

definition k_host :: "HostPanel \<Rightarrow> string" where
  "k_host p = lower (host (get_cfg p))"

definition k_status :: "HostPanel \<Rightarrow> bool \<times> real \<times> string" where
  "k_status p = (\<not> last_ok p, last_latency p, lower (host (get_cfg p)))"

text \<open>
  \<open>App._sort_panels\<close>: \<open>sorted\<close> is a stable sort by the key, as \<^const>\<open>sort_key\<close> is.
  The result is both the new packing order and the new \<open>self.panels\<close>.
\<close>

definition sort_panels :: "string \<Rightarrow> HostPanel list \<Rightarrow> HostPanel list" where
  "sort_panels key ps =
     (if key = ''latency'' then sort_key k_latency ps
      else if key = ''host'' then sort_key k_host ps
      else sort_key k_status ps)"

text \<open>The order of the \<open>status\<close> mode as the specification words it.\<close>

definition status_before :: "HostPanel \<Rightarrow> HostPanel \<Rightarrow> bool" where
  "status_before p q =
     ((last_ok p \<and> \<not> last_ok q) \<or>
      (last_ok p = last_ok q \<and>
        (last_latency p < last_latency q \<or>
         (last_latency p = last_latency q \<and> lower (host (cfg p)) \<le> lower (host (cfg q))))))"

section \<open>Scenario data\<close>

text \<open>
  The host of the refused-connection scenario, and one pass of the loop in which the connect
  is refused at once, no time is lost in the probe, and nobody asks the thread to stop.
\<close>

definition scenario_cfg :: MonitorConfig where
  "scenario_cfg =
     \<lparr>host = ''10.0.0.1'', port = 22, interval = 2, timeout = 2, sound_on_change = True\<rparr>"

definition refused :: cycle_env where
  "refused =
     \<lparr>env_stop_set = False, env_cfg = scenario_cfg, env_socket_ok = True,
      env_connect = Raised ''[Errno 111] Connection refused'', env_ts = 0,
      env_elapsed = 0, env_stop_at_wait = False, env_stop_wait = False\<rparr>"

text \<open>
  Panels as the application builds them under defaults of 2 seconds: two on the same host
  with different ports, and two whose host names differ only from the first letter on, one
  with a capital. None has a result yet.
\<close>

definition panel_a :: HostPanel where
  "panel_a = HostPanel_new scenario_cfg (2, 2)"

definition panel_b :: HostPanel where
  "panel_b = HostPanel_new (scenario_cfg\<lparr>port := 80\<rparr>) (2, 2)"

definition panel_zeta :: HostPanel where
  "panel_zeta = HostPanel_new (scenario_cfg\<lparr>host := ''Zeta.example''\<rparr>) (2, 2)"

definition panel_alpha :: HostPanel where
  "panel_alpha = HostPanel_new (scenario_cfg\<lparr>host := ''alpha.example''\<rparr>) (2, 2)"

text \<open>
  Two panels not yet started, configured with intervals of 2 and of 5 seconds.
\<close>

definition panel_fast :: HostPanel where
  "panel_fast = HostPanel_init scenario_cfg"

definition panel_slow :: HostPanel where
  "panel_slow = HostPanel_init (scenario_cfg\<lparr>host := ''10.0.0.2'', interval := 5\<rparr>)"

text \<open>
  Two panels built while the application's default timeout, or its default interval, is
  \<open>1e10\<close> seconds, as the settings file or the dialogs of the View menu can make it: both
  are only bounded from below, by 0.5.
\<close>

definition panel_long_timeout :: HostPanel where
  "panel_long_timeout = HostPanel_new scenario_cfg (2, 10 ^ 10)"

definition panel_long_interval :: HostPanel where
  "panel_long_interval = HostPanel_new scenario_cfg (10 ^ 10, 2)"

section \<open>Properties of the worker\<close>

subsection \<open>One pass of the loop\<close>

lemma backoff_zero: "backoff base 0 = base"
  by (simp add: backoff_def)

lemma backoff_pos: "0 < f \<Longrightarrow> backoff base f = min 30 (base * 2 ^ nat f)"
  by (simp add: backoff_def max_backoff_def)

lemma tcp_ping_returns:
  "tcp_ping t s c = Inr r \<Longrightarrow>
     r = (case c of Connected l \<Rightarrow> (True, Some l, None) | Raised x \<Rightarrow> (False, None, Some x))"
  by (auto simp: tcp_ping_def split: if_splits connect_outcome.splits)

lemma cycle_returns:
  assumes "cycle w e = Inr (w', wait)"
  shows "failures w' =
      (case env_connect e of Connected l \<Rightarrow> 0 | Raised x \<Rightarrow> min (failures w + 1) 10)"
    and "wait = max 0 (backoff (interval (env_cfg e)) (failures w') - env_elapsed e)"
    and "length (out_q w') = Suc (length (out_q w))"
proof -
  obtain r where r: "tcp_ping (timeout (env_cfg e)) (env_socket_ok e) (env_connect e) = Inr r"
    using assms by (auto simp: cycle_def split: sum.splits)
  note v = tcp_ping_returns [OF r]
  show "failures w' =
      (case env_connect e of Connected l \<Rightarrow> 0 | Raised x \<Rightarrow> min (failures w + 1) 10)"
    using assms r v by (auto simp: cycle_def Let_def split: connect_outcome.splits)
  show "wait = max 0 (backoff (interval (env_cfg e)) (failures w') - env_elapsed e)"
    using assms r v by (auto simp: cycle_def Let_def split: connect_outcome.splits)
  show "length (out_q w') = Suc (length (out_q w))"
    using assms r v by (auto simp: cycle_def Let_def split: connect_outcome.splits)
qed

lemma cycle_raises:
  "cycle w e = Inl x \<longleftrightarrow>
     tcp_ping (timeout (env_cfg e)) (env_socket_ok e) (env_connect e) = Inl x"
  by (simp add: cycle_def Let_def split: sum.splits prod.splits)

lemma cycle_failures_range:
  "0 \<le> failures w \<Longrightarrow> cycle w e = Inr (w', wait) \<Longrightarrow> 0 \<le> failures w' \<and> failures w' \<le> 10"
  using cycle_returns(1) [of w e w' wait] by (simp split: connect_outcome.splits)

lemma cycle_refused:
  "cycle w refused =
     Inr (w\<lparr>out_q := out_q w @
              [\<lparr>m_ts = 0, m_ok = False, m_latency = None,
                m_error = Some ''[Errno 111] Connection refused'',
                m_host = ''10.0.0.1'', m_port = 22\<rparr>],
            failures := min (failures w + 1) 10\<rparr>,
          max 0 (backoff 2 (min (failures w + 1) 10)))"
proof -
  have "(2::real) \<le> time_limit" by (simp add: time_limit_def)
  then show ?thesis
    by (simp add: cycle_def tcp_ping_def refused_def scenario_cfg_def Let_def)
qed

lemma backoff_mono_pos:
  assumes "0 \<le> base" "1 \<le> f" "f \<le> g"
  shows "backoff base f \<le> backoff base g"
proof -
  have "nat f \<le> nat g" using assms by simp
  then have "(2::real) ^ nat f \<le> 2 ^ nat g" by (simp add: power_increasing)
  then have "base * 2 ^ nat f \<le> base * 2 ^ nat g"
    using assms(1) by (rule mult_left_mono)
  then show ?thesis using assms by (simp add: backoff_def min_le_iff_disj)
qed

lemma backoff_ge_base:
  assumes "0 \<le> base" "base \<le> 30"
  shows "base \<le> backoff base g"
proof (cases "0 < g")
  case True
  have "(1::real) \<le> 2 ^ nat g" by simp
  then have "base * 1 \<le> base * 2 ^ nat g" using assms(1) by (rule mult_left_mono)
  then show ?thesis using True assms by (simp add: backoff_def max_backoff_def)
next
  case False
  then show ?thesis by (simp add: backoff_def)
qed

lemma backoff_mono_small:
  assumes "0 \<le> base" "base \<le> 30" "f \<le> g"
  shows "backoff base f \<le> backoff base g"
proof (cases "1 \<le> f")
  case True
  then show ?thesis using assms backoff_mono_pos by blast
next
  case False
  then have "backoff base f = base" by (simp add: backoff_def)
  then show ?thesis using backoff_ge_base [OF assms(1,2)] by simp
qed

text \<open>
  Claim C1, as the code has it. The backoff is the base interval at streak 0 and
  \<open>min(30, base * 2^streak)\<close> at a positive streak; the wait of a pass is the backoff of the
  new streak less the elapsed probe time, floored at 0. The backoff does not decrease as the
  streak grows from streak 1 on, and from streak 0 on when the base interval is at most 30.
\<close>

theorem backoff_wait:
  "backoff base 0 = base
   \<and> (0 < f \<longrightarrow> backoff base f = min 30 (base * 2 ^ nat f))
   \<and> (cycle w e = Inr (w', wait) \<longrightarrow>
        wait = max 0 (backoff (interval (env_cfg e)) (failures w') - env_elapsed e))
   \<and> (0 \<le> base \<and> 1 \<le> f \<and> f \<le> g \<longrightarrow> backoff base f \<le> backoff base g)
   \<and> (0 \<le> base \<and> base \<le> 30 \<and> f \<le> g \<longrightarrow> backoff base f \<le> backoff base g)"
  using backoff_zero backoff_pos cycle_returns(2) backoff_mono_pos backoff_mono_small by blast

theorem backoff_wait_witness:
  "(0::int) < 1 \<and> (0::real) \<le> 2 \<and> (2::real) \<le> 30 \<and> (1::int) \<le> 2
   \<and> backoff 2 0 = 2 \<and> backoff 2 1 = 4 \<and> backoff 2 1 \<le> backoff 2 2
   \<and> cycle MonitorThread_init refused =
       Inr (\<lparr>failures = 1,
             out_q = [\<lparr>m_ts = 0, m_ok = False, m_latency = None,
                       m_error = Some ''[Errno 111] Connection refused'',
                       m_host = ''10.0.0.1'', m_port = 22\<rparr>]\<rparr>, 4)
   \<and> (4::real) = max 0 (backoff 2 1 - 0)"
proof -
  have c: "cycle MonitorThread_init refused =
       Inr (\<lparr>failures = 1,
             out_q = [\<lparr>m_ts = 0, m_ok = False, m_latency = None,
                       m_error = Some ''[Errno 111] Connection refused'',
                       m_host = ''10.0.0.1'', m_port = 22\<rparr>]\<rparr>, 4)"
    by (simp add: cycle_refused MonitorThread_init_def backoff_def max_backoff_def)
  note t = backoff_wait [where base = 2 and f = 1 and g = 2 and w = MonitorThread_init
      and e = refused and wait = 4
      and w' = "\<lparr>failures = 1,
             out_q = [\<lparr>m_ts = 0, m_ok = False, m_latency = None,
                       m_error = Some ''[Errno 111] Connection refused'',
                       m_host = ''10.0.0.1'', m_port = 22\<rparr>]\<rparr>"]
  from t c show ?thesis by (simp add: refused_def scenario_cfg_def)
qed

text \<open>
  Claim C1 as stated fails where the base interval is above the cap: an interval of 60
  seconds is waited in full while the host answers, and the first failure brings the backoff
  down to 30.
\<close>

theorem backoff_drops_above_cap:
  "(1 / 2 :: real) \<le> 60 \<and> backoff 60 0 = 60 \<and> backoff 60 1 = 30
   \<and> \<not> backoff 60 0 \<le> backoff 60 1"
  by (simp add: backoff_def max_backoff_def)

subsection \<open>The loop\<close>

lemma run_stop_set: "env_stop_set e \<Longrightarrow> run w (e # es) = (Stopped, w, [])"
  by simp

lemma run_probe_raises:
  "\<not> env_stop_set e \<Longrightarrow> cycle w e = Inl x \<Longrightarrow> run w (e # es) = (Died x, w, [])"
  by simp

lemma run_wait_raises:
  "\<not> env_stop_set e \<Longrightarrow> cycle w e = Inr (w', wait) \<Longrightarrow> stop_wait e wait = Inl x \<Longrightarrow>
     run w (e # es) = (Died x, w', [wait])"
  by simp

lemma run_wait_stopped:
  "\<not> env_stop_set e \<Longrightarrow> cycle w e = Inr (w', wait) \<Longrightarrow> stop_wait e wait = Inr True \<Longrightarrow>
     run w (e # es) = (Stopped, w', [wait])"
  by simp

lemma run_continues:
  "\<not> env_stop_set e \<Longrightarrow> cycle w e = Inr (w', wait) \<Longrightarrow> stop_wait e wait = Inr False \<Longrightarrow>
     run w (e # es) =
       (status_of (run w' es), thread_of (run w' es), wait # waits_of (run w' es))"
  by (simp add: status_of_def thread_of_def waits_of_def split: prod.splits)

declare run.simps(2) [simp del]

lemma run_step_cases:
  obtains (stop) "env_stop_set e" "run w (e # es) = (Stopped, w, [])"
  | (probe_raises) x where "\<not> env_stop_set e" "cycle w e = Inl x"
      "run w (e # es) = (Died x, w, [])"
  | (wait_raises) w' wait x where "\<not> env_stop_set e" "cycle w e = Inr (w', wait)"
      "stop_wait e wait = Inl x" "run w (e # es) = (Died x, w', [wait])"
  | (wait_stopped) w' wait where "\<not> env_stop_set e" "cycle w e = Inr (w', wait)"
      "stop_wait e wait = Inr True" "run w (e # es) = (Stopped, w', [wait])"
  | (continues) w' wait where "\<not> env_stop_set e" "cycle w e = Inr (w', wait)"
      "stop_wait e wait = Inr False"
      "run w (e # es) =
         (status_of (run w' es), thread_of (run w' es), wait # waits_of (run w' es))"
proof (cases "env_stop_set e")
  case True
  from stop [OF True run_stop_set [OF True]] show ?thesis .
next
  case ns: False
  show ?thesis
  proof (cases "cycle w e")
    case (Inl x)
    from probe_raises [OF ns Inl run_probe_raises [OF ns Inl]] show ?thesis .
  next
    case (Inr p)
    obtain w' wait where p: "p = (w', wait)" by (cases p)
    have c: "cycle w e = Inr (w', wait)" using Inr p by simp
    show ?thesis
    proof (cases "stop_wait e wait")
      case (Inl x)
      from wait_raises [OF ns c Inl run_wait_raises [OF ns c Inl]] show ?thesis .
    next
      case sw: (Inr b)
      show ?thesis
      proof (cases b)
        case True
        then have t: "stop_wait e wait = Inr True" using sw by simp
        from wait_stopped [OF ns c t run_wait_stopped [OF ns c t]] show ?thesis .
      next
        case False
        then have f: "stop_wait e wait = Inr False" using sw by simp
        from continues [OF ns c f run_continues [OF ns c f]] show ?thesis .
      qed
    qed
  qed
qed

lemma run_failures_range:
  "0 \<le> failures w \<Longrightarrow> failures w \<le> 10 \<Longrightarrow>
     0 \<le> failures (thread_of (run w es)) \<and> failures (thread_of (run w es)) \<le> 10"
proof (induction es arbitrary: w)
  case Nil
  then show ?case by (simp add: thread_of_def)
next
  case (Cons e es)
  show ?case
  proof (cases rule: run_step_cases [of e w es])
    case stop
    then show ?thesis using Cons.prems by (simp add: thread_of_def)
  next
    case (probe_raises x)
    then show ?thesis using Cons.prems by (simp add: thread_of_def)
  next
    case (wait_raises w' wait x)
    then show ?thesis
      using cycle_failures_range [OF Cons.prems(1), of e w' wait] by (simp add: thread_of_def)
  next
    case (wait_stopped w' wait)
    then show ?thesis
      using cycle_failures_range [OF Cons.prems(1), of e w' wait] by (simp add: thread_of_def)
  next
    case (continues w' wait)
    have r: "0 \<le> failures w' \<and> failures w' \<le> 10"
      using cycle_failures_range [OF Cons.prems(1) continues(2)] .
    have "thread_of (run w (e # es)) = thread_of (run w' es)"
      using continues(4) by (simp add: thread_of_def)
    then show ?thesis using Cons.IH [of w'] r by simp
  qed
qed

text \<open>
  Claim C2. The thread starts with a streak of 0; whatever the probes do and however the
  loop is left, the streak stays between 0 and 10. A pass whose connect succeeds leaves the
  streak at 0 whatever it was; a pass whose connect fails adds one, up to 10.
\<close>

theorem failures_capped_reset:
  "0 \<le> failures (thread_of (run MonitorThread_init es))
   \<and> failures (thread_of (run MonitorThread_init es)) \<le> 10
   \<and> (cycle w e = Inr (w', wait) \<longrightarrow>
        failures w' =
          (case env_connect e of Connected l \<Rightarrow> 0 | Raised x \<Rightarrow> min (failures w + 1) 10))"
  using run_failures_range [of MonitorThread_init es] cycle_returns(1) [of w e w' wait]
  by (simp add: MonitorThread_init_def)

text \<open>
  A success at streak 7 gives streak 0; a refusal at streak 10 leaves 10.
\<close>

theorem failures_capped_reset_witness:
  "cycle \<lparr>failures = 7, out_q = []\<rparr> (refused\<lparr>env_connect := Connected 12\<rparr>) =
     Inr (\<lparr>failures = 0,
           out_q = [\<lparr>m_ts = 0, m_ok = True, m_latency = Some 12, m_error = None,
                     m_host = ''10.0.0.1'', m_port = 22\<rparr>]\<rparr>, 2)
   \<and> cycle \<lparr>failures = 10, out_q = []\<rparr> refused =
     Inr (\<lparr>failures = 10,
           out_q = [\<lparr>m_ts = 0, m_ok = False, m_latency = None,
                     m_error = Some ''[Errno 111] Connection refused'',
                     m_host = ''10.0.0.1'', m_port = 22\<rparr>]\<rparr>, 30)
   \<and> failures (thread_of (run MonitorThread_init [refused, refused])) \<le> 10"
proof -
  have l: "(2::real) \<le> time_limit" by (simp add: time_limit_def)
  have c1: "cycle \<lparr>failures = 7, out_q = []\<rparr> (refused\<lparr>env_connect := Connected 12\<rparr>) =
     Inr (\<lparr>failures = 0,
           out_q = [\<lparr>m_ts = 0, m_ok = True, m_latency = Some 12, m_error = None,
                     m_host = ''10.0.0.1'', m_port = 22\<rparr>]\<rparr>, 2)"
    using l by (simp add: cycle_def tcp_ping_def refused_def scenario_cfg_def Let_def backoff_def)
  have c2: "cycle \<lparr>failures = 10, out_q = []\<rparr> refused =
     Inr (\<lparr>failures = 10,
           out_q = [\<lparr>m_ts = 0, m_ok = False, m_latency = None,
                     m_error = Some ''[Errno 111] Connection refused'',
                     m_host = ''10.0.0.1'', m_port = 22\<rparr>]\<rparr>, 30)"
    by (simp add: cycle_refused backoff_def max_backoff_def)
  note t1 = failures_capped_reset [where es = "[refused, refused]"
      and w = "\<lparr>failures = 7, out_q = []\<rparr>" and e = "refused\<lparr>env_connect := Connected 12\<rparr>"
      and wait = 2
      and w' = "\<lparr>failures = 0,
           out_q = [\<lparr>m_ts = 0, m_ok = True, m_latency = Some 12, m_error = None,
                     m_host = ''10.0.0.1'', m_port = 22\<rparr>]\<rparr>"]
  note t2 = failures_capped_reset [where es = "[refused, refused]"
      and w = "\<lparr>failures = 10, out_q = []\<rparr>" and e = refused and wait = 30
      and w' = "\<lparr>failures = 10,
           out_q = [\<lparr>m_ts = 0, m_ok = False, m_latency = None,
                     m_error = Some ''[Errno 111] Connection refused'',
                     m_host = ''10.0.0.1'', m_port = 22\<rparr>]\<rparr>"]
  from t1 t2 c1 c2 show ?thesis by blast
qed

text \<open>
  A thread that has left its loop as stopped has seen the stop event: at the loop head, on
  entering a wait, or during it.
\<close>

lemma run_stopped_cause:
  "status_of (run w es) = Stopped \<Longrightarrow>
     \<exists>e \<in> set es. env_stop_set e \<or> env_stop_at_wait e \<or> env_stop_wait e"
proof (induction es arbitrary: w)
  case Nil
  then show ?case by (simp add: status_of_def)
next
  case (Cons e es)
  show ?case
  proof (cases rule: run_step_cases [of e w es])
    case stop
    then show ?thesis by simp
  next
    case (probe_raises x)
    then show ?thesis using Cons.prems by (simp add: status_of_def)
  next
    case (wait_raises w' wait x)
    then show ?thesis using Cons.prems by (simp add: status_of_def)
  next
    case (wait_stopped w' wait)
    then have "env_stop_at_wait e \<or> env_stop_wait e"
      by (auto simp: stop_wait_def split: if_splits)
    then show ?thesis by auto
  next
    case (continues w' wait)
    then have "status_of (run w' es) = Stopped" using Cons.prems by (simp add: status_of_def)
    then show ?thesis using Cons.IH by auto
  qed
qed

subsection \<open>A host that always refuses\<close>

lemma backoff_capped: "base \<le> 30 \<Longrightarrow> backoff base f \<le> 30"
  by (simp add: backoff_def max_backoff_def)

lemma refused_continues:
  "run w (refused # es) =
     (status_of (run (fst (projr (cycle w refused))) es),
      thread_of (run (fst (projr (cycle w refused))) es),
      max 0 (backoff 2 (min (failures w + 1) 10)) #
        waits_of (run (fst (projr (cycle w refused))) es))"
proof -
  have "backoff 2 (min (failures w + 1) 10) \<le> 30" by (rule backoff_capped) simp
  moreover have "(30::real) \<le> time_limit" by (simp add: time_limit_def)
  ultimately have "stop_wait refused (max 0 (backoff 2 (min (failures w + 1) 10))) = Inr False"
    by (simp add: stop_wait_def refused_def)
  moreover have "\<not> env_stop_set refused" by (simp add: refused_def)
  ultimately show ?thesis
    using run_continues [OF _ cycle_refused [of w], of es] by (simp add: cycle_refused)
qed

lemma refused_failures:
  "failures (fst (projr (cycle w refused))) = min (failures w + 1) 10"
  by (simp add: cycle_refused)

lemma refused_run_waits:
  "0 \<le> failures w \<Longrightarrow> failures w \<le> 10 \<Longrightarrow>
     waits_of (run w (replicate n refused)) =
       map (\<lambda>i. min 30 (2 * 2 ^ nat (min (failures w + 1 + int i) 10))) [0..<n]
     \<and> failures (thread_of (run w (replicate n refused))) = min (failures w + int n) 10
     \<and> status_of (run w (replicate n refused)) = Running"
proof (induction n arbitrary: w)
  case 0
  then show ?case by (simp add: waits_of_def thread_of_def status_of_def)
next
  case (Suc n)
  let ?w = "fst (projr (cycle w refused))"
  let ?r = "run ?w (replicate n refused)"
  have f: "failures ?w = min (failures w + 1) 10"
    by (rule refused_failures)
  then have pos: "0 < failures ?w" "0 \<le> failures ?w" "failures ?w \<le> 10"
    using Suc.prems by simp_all
  have wt: "max 0 (backoff 2 (min (failures w + 1) 10)) = min 30 (2 * 2 ^ nat (failures ?w))"
    using pos(1) f by (simp add: backoff_def max_backoff_def)
  have m: "min (failures ?w + 1 + int i) 10 = min (failures w + 1 + int (Suc i)) 10" for i
    using f by auto
  have IH: "waits_of ?r =
        map (\<lambda>i. min 30 (2 * 2 ^ nat (min (failures w + 1 + int (Suc i)) 10))) [0..<n]"
      "failures (thread_of ?r) = min (failures ?w + int n) 10"
      "status_of ?r = Running"
    using Suc.IH [OF pos(2,3)] by (simp_all only: m)
  have run: "run w (refused # replicate n refused) =
      (status_of ?r, thread_of ?r, min 30 (2 * 2 ^ nat (failures ?w)) # waits_of ?r)"
    by (simp only: refused_continues wt)
  have "waits_of (run w (replicate (Suc n) refused)) =
      min 30 (2 * 2 ^ nat (failures ?w)) # waits_of ?r"
    by (simp add: run waits_of_def)
  also have "\<dots> = map (\<lambda>i. min 30 (2 * 2 ^ nat (min (failures w + 1 + int i) 10))) [0..<Suc n]"
    unfolding map_upt_Suc IH(1) f by simp
  finally have a: "waits_of (run w (replicate (Suc n) refused)) =
      map (\<lambda>i. min 30 (2 * 2 ^ nat (min (failures w + 1 + int i) 10))) [0..<Suc n]" .
  have b: "failures (thread_of (run w (replicate (Suc n) refused))) =
      min (failures w + int (Suc n)) 10"
    using IH(2) f by (simp add: run thread_of_def)
  have c: "status_of (run w (replicate (Suc n) refused)) = Running"
    using IH(3) by (simp add: run status_of_def)
  from a b c show ?case by blast
qed

lemma scenario_wait_value:
  "min (30::real) (2 * 2 ^ nat (min (1 + int i) 10)) = (if i < 3 then 2 * 2 ^ (i + 1) else 30)"
proof (cases "i < 3")
  case True
  then have "i = 0 \<or> i = 1 \<or> i = 2" by auto
  then show ?thesis by auto
next
  case False
  then have "4 \<le> nat (min (1 + int i) 10)" by simp
  then have "(2::real) ^ 4 \<le> 2 ^ nat (min (1 + int i) 10)"
    by (rule power_increasing) simp
  then show ?thesis using False by simp
qed

lemma scenario_waits:
  "waits_of (run MonitorThread_init (replicate n refused)) =
     map (\<lambda>i. if i < 3 then 2 * 2 ^ (i + 1) else 30) [0..<n]"
  using refused_run_waits [of MonitorThread_init n]
  by (simp add: MonitorThread_init_def scenario_wait_value)

text \<open>
  Claim C3, as the code has it. With interval 2.0, every connect refused and no time lost in
  the probe, the wait after the probe that brings the streak to 1 is 4 seconds, then 8 at
  streak 2 and 16 at streak 3; at streak 4 it is 30, since 32 is above the cap, and it
  stays 30 from there on. The streak itself stops at 10.
\<close>

theorem always_refused_waits:
  "waits_of (run MonitorThread_init (replicate n refused)) =
     map (\<lambda>i. if i < 3 then 2 * 2 ^ (i + 1) else 30) [0..<n]
   \<and> failures (thread_of (run MonitorThread_init (replicate n refused))) = min (int n) 10
   \<and> waits_of (run MonitorThread_init (replicate 6 refused)) = [4, 8, 16, 30, 30, 30]"
  using refused_run_waits [of MonitorThread_init n] scenario_waits [of 6]
  by (simp add: MonitorThread_init_def scenario_wait_value upt_conv_Cons)

text \<open>
  Claim C3 as stated has the waits one doubling behind: they are not 2, 4, 8, 16, 30.
\<close>

theorem always_refused_first_waits:
  "waits_of (run MonitorThread_init (replicate 5 refused)) = [4, 8, 16, 30, 30]
   \<and> waits_of (run MonitorThread_init (replicate 5 refused)) \<noteq> [2, 4, 8, 16, 30]"
  by (simp add: scenario_waits upt_conv_Cons)

section \<open>Properties of the sample window and the panel\<close>

lemma push_max_points: "max_points (push s l ok) = max_points s"
  by (simp add: push_def Let_def)

lemma push_points:
  "points (push s l ok) =
     (if int (length (points s)) + 1 > max_points s then tl (points s @ [(or_else l 0, ok)])
      else points s @ [(or_else l 0, ok)])"
  by (simp add: push_def Let_def)

lemma push_length:
  "0 \<le> max_points s \<Longrightarrow> int (length (points s)) \<le> max_points s \<Longrightarrow>
     int (length (points (push s l ok))) \<le> max_points s"
  by (simp add: push_points)

lemma push_all_bounded:
  "0 \<le> max_points s \<Longrightarrow> int (length (points s)) \<le> max_points s \<Longrightarrow>
     int (length (points (push_all s xs))) \<le> max_points s \<and> max_points (push_all s xs) = max_points s"
proof (induction s xs rule: push_all.induct)
  case (1 s)
  then show ?case by simp
next
  case (2 s l ok rest)
  then show ?case by (simp add: push_length push_max_points)
qed

lemma push_evicts_oldest:
  "points s = x # rest \<Longrightarrow> int (length (points s)) = max_points s \<Longrightarrow>
     points (push s l ok) = rest @ [(or_else l 0, ok)]"
  by (simp add: push_points)

lemma push_appends:
  "int (length (points s)) < max_points s \<Longrightarrow>
     points (push s l ok) = points s @ [(or_else l 0, ok)]"
  by (simp add: push_points)

text \<open>
  Claim C4. The capacity is 80 by default and 100 for a panel's sparkline. Pushing any
  sequence of samples into an empty window of capacity \<open>n\<close> never leaves more than \<open>n\<close>
  of them, and a single push keeps a window within its capacity. A push onto a full window
  drops its first, oldest, sample and puts the new one last; a push onto a window with room
  only appends.
\<close>

theorem window_bounded_fifo:
  "Sparkline_default_max_points = 80 \<and> HostPanel_max_points = 100
   \<and> (0 \<le> n \<longrightarrow> int (length (points (push_all (Sparkline_init n) xs))) \<le> n)
   \<and> (0 \<le> max_points s \<and> int (length (points s)) \<le> max_points s \<longrightarrow>
        int (length (points (push s l ok))) \<le> max_points s)
   \<and> (points s' = x # rest \<and> int (length (points s')) = max_points s' \<longrightarrow>
        points (push s' l ok) = rest @ [(or_else l 0, ok)])
   \<and> (int (length (points s)) < max_points s \<longrightarrow>
        points (push s l ok) = points s @ [(or_else l 0, ok)])"
proof (intro conjI impI)
  show "Sparkline_default_max_points = 80" by (simp add: Sparkline_default_max_points_def)
  show "HostPanel_max_points = 100" by (simp add: HostPanel_max_points_def)
  show "int (length (points (push_all (Sparkline_init n) xs))) \<le> n" if "0 \<le> n"
    using that push_all_bounded [of "Sparkline_init n" xs] by (simp add: Sparkline_init_def)
  show "int (length (points (push s l ok))) \<le> max_points s"
    if "0 \<le> max_points s \<and> int (length (points s)) \<le> max_points s"
    using that by (simp add: push_length)
  show "points (push s' l ok) = rest @ [(or_else l 0, ok)]"
    if "points s' = x # rest \<and> int (length (points s')) = max_points s'"
    using that push_evicts_oldest [of s' x rest l ok] by blast
  show "points (push s l ok) = points s @ [(or_else l 0, ok)]"
    if "int (length (points s)) < max_points s"
    using that by (rule push_appends)
qed

theorem window_bounded_fifo_witness:
  "(0::int) \<le> 2
   \<and> points (push_all (Sparkline_init 2) [(Some 5, True), (None, False), (Some 7, True)])
       = [(0, False), (7, True)]
   \<and> int (length (points (push_all (Sparkline_init 2)
         [(Some 5, True), (None, False), (Some 7, True)]))) \<le> 2
   \<and> points (push \<lparr>max_points = 2, points = [(5, True), (0, False)]\<rparr> (Some 7) True)
       = [(0, False), (7, True)]
   \<and> points (push \<lparr>max_points = 2, points = [(5, True)]\<rparr> None False)
       = [(5, True), (0, False)]"
  using window_bounded_fifo [where n = 2
      and xs = "[(Some 5, True), (None, False), (Some 7, True)]"
      and s = "\<lparr>max_points = 2, points = [(5, True)]\<rparr>"
      and s' = "\<lparr>max_points = 2, points = [(5, True), (0, False)]\<rparr>"
      and x = "(5, True)" and rest = "[(0, False)]" and l = "Some 7" and ok = True]
  by (simp add: Sparkline_init_def push_points push_max_points or_else_def)


lemma or_else_Some: "l \<noteq> 0 \<Longrightarrow> or_else (Some l) d = l"
  by (simp add: or_else_def)

lemma or_else_None: "or_else None d = d"
  by (simp add: or_else_def)

lemma strip_hosts: "strip ''10.0.0.1'' = ''10.0.0.1''" "strip ''10.0.0.2'' = ''10.0.0.2''"
  "strip ''Zeta.example'' = ''Zeta.example''" "strip ''alpha.example'' = ''alpha.example''"
  by code_simp+

lemma HostPanel_new_started:
  "strip (host c) \<noteq> [] \<Longrightarrow>
     HostPanel_new c (d_interval, d_timeout) =
       \<lparr>cfg = c\<lparr>interval := max (1 / 2) d_interval, timeout := max (1 / 2) d_timeout\<rparr>,
        p_out_q = [],
        worker = Some \<lparr>w_alive = True, w_stop = False, w_thread = MonitorThread_init\<rparr>,
        p_last_ok = None, p_last_latency = 10 ^ 12,
        spark = Sparkline_init HostPanel_max_points,
        status_lbl = Lbl_Checking (host c) (port c)\<rparr>"
  by (simp add: HostPanel_new_def start_def HostPanel_init_def)

lemma panel_a_fields:
  "cfg panel_a = scenario_cfg" "p_last_ok panel_a = None" "p_last_latency panel_a = 10 ^ 12"
  "spark panel_a = Sparkline_init HostPanel_max_points"
  by (simp_all add: panel_a_def HostPanel_new_started scenario_cfg_def strip_hosts)

lemma panel_b_fields:
  "cfg panel_b = scenario_cfg\<lparr>port := 80\<rparr>" "p_last_ok panel_b = None"
  "p_last_latency panel_b = 10 ^ 12"
  by (simp_all add: panel_b_def HostPanel_new_started scenario_cfg_def strip_hosts)

lemma panel_zeta_fields:
  "cfg panel_zeta = scenario_cfg\<lparr>host := ''Zeta.example''\<rparr>" "p_last_ok panel_zeta = None"
  "p_last_latency panel_zeta = 10 ^ 12"
  by (simp_all add: panel_zeta_def HostPanel_new_started scenario_cfg_def strip_hosts)

lemma panel_alpha_fields:
  "cfg panel_alpha = scenario_cfg\<lparr>host := ''alpha.example''\<rparr>" "p_last_ok panel_alpha = None"
  "p_last_latency panel_alpha = 10 ^ 12"
  by (simp_all add: panel_alpha_def HostPanel_new_started scenario_cfg_def strip_hosts)

lemma panel_long_cfg:
  "cfg panel_long_timeout = scenario_cfg\<lparr>timeout := 10 ^ 10\<rparr>"
  "cfg panel_long_interval = scenario_cfg\<lparr>interval := 10 ^ 10\<rparr>"
  by (simp_all add: panel_long_timeout_def panel_long_interval_def HostPanel_new_started
      scenario_cfg_def strip_hosts)

text \<open>
  Claim C5, as the code has it. \<open>_apply_result\<close> sets the last status to the result's
  \<open>ok\<close>; it sets the last latency to the probed latency for a successful result with a
  non-zero latency, and to the sentinel \<open>1e12\<close> for a failed result, which carries no
  latency; and it pushes \<open>(latency or 0, ok)\<close> onto the sample window.
\<close>

theorem apply_result_last:
  "p_last_ok (apply_result p d) = Some (m_ok d)
   \<and> last_ok (apply_result p d) = m_ok d
   \<and> (m_ok d \<and> m_latency d = Some l \<and> l \<noteq> 0 \<longrightarrow> last_latency (apply_result p d) = l)
   \<and> (\<not> m_ok d' \<and> m_latency d' = None \<longrightarrow> last_latency (apply_result p d') = 10 ^ 12)
   \<and> spark (apply_result p d) = push (spark p) (m_latency d) (m_ok d)
   \<and> (int (length (points (spark p))) < max_points (spark p) \<longrightarrow>
        points (spark (apply_result p d)) =
          points (spark p) @ [(or_else (m_latency d) 0, m_ok d)])"
  by (simp add: apply_result_def last_ok_def last_latency_def Let_def or_else_Some or_else_None
      push_appends)

theorem apply_result_last_witness:
  "last_ok (apply_result (panel_a)
      \<lparr>m_ts = 0, m_ok = True, m_latency = Some 12, m_error = None,
       m_host = ''10.0.0.1'', m_port = 22\<rparr>)
   \<and> last_latency (apply_result (panel_a)
      \<lparr>m_ts = 0, m_ok = True, m_latency = Some 12, m_error = None,
       m_host = ''10.0.0.1'', m_port = 22\<rparr>) = 12
   \<and> last_latency (apply_result (panel_a)
      \<lparr>m_ts = 0, m_ok = False, m_latency = None, m_error = Some ''timed out'',
       m_host = ''10.0.0.1'', m_port = 22\<rparr>) = 10 ^ 12
   \<and> points (spark (apply_result (panel_a)
      \<lparr>m_ts = 0, m_ok = True, m_latency = Some 12, m_error = None,
       m_host = ''10.0.0.1'', m_port = 22\<rparr>)) = [(12, True)]"
  using apply_result_last [where p = "panel_a"
      and d = "\<lparr>m_ts = 0, m_ok = True, m_latency = Some 12, m_error = None,
                m_host = ''10.0.0.1'', m_port = 22\<rparr>"
      and l = 12
      and d' = "\<lparr>m_ts = 0, m_ok = False, m_latency = None, m_error = Some ''timed out'',
                 m_host = ''10.0.0.1'', m_port = 22\<rparr>"]
  by (simp add: panel_a_fields Sparkline_init_def HostPanel_max_points_def or_else_def
      push_points)

text \<open>
  Claim C5 as stated fails in two places. A successful result with latency 0.0 leaves the
  sentinel, not the probed latency, since \<open>latency or 1e12\<close> tests the latency and not
  \<open>ok\<close>. And the sentinel is the finite number \<open>1e12\<close>: it is below a latency of
  \<open>2e12\<close>.
\<close>

theorem apply_result_zero_latency:
  "last_latency (apply_result (panel_a)
      \<lparr>m_ts = 0, m_ok = True, m_latency = Some 0, m_error = None,
       m_host = ''10.0.0.1'', m_port = 22\<rparr>) = 10 ^ 12
   \<and> last_latency (apply_result (panel_a)
      \<lparr>m_ts = 0, m_ok = True, m_latency = Some 0, m_error = None,
       m_host = ''10.0.0.1'', m_port = 22\<rparr>) \<noteq> 0
   \<and> last_latency (apply_result (panel_a)
      \<lparr>m_ts = 0, m_ok = False, m_latency = None, m_error = Some ''timed out'',
       m_host = ''10.0.0.1'', m_port = 22\<rparr>)
     < last_latency (apply_result (panel_a)
      \<lparr>m_ts = 0, m_ok = True, m_latency = Some (2 * 10 ^ 12), m_error = None,
       m_host = ''10.0.0.1'', m_port = 22\<rparr>)"
  by (simp add: apply_result_def last_latency_def or_else_def)

lemma p95_index_range:
  assumes "xs \<noteq> []"
  shows "0 \<le> p95_index xs \<and> p95_index xs < int (length xs)"
proof -
  have "real (length xs) * (95 / 100) \<le> real (length xs)" by simp
  then have "\<lfloor>real (length xs) * (95 / 100)\<rfloor> \<le> \<lfloor>real (length xs)\<rfloor>" by (rule floor_mono)
  then have "\<lfloor>real (length xs) * (95 / 100)\<rfloor> \<le> int (length xs)" by simp
  moreover have "0 < length xs" using assms by simp
  ultimately show ?thesis using assms by (simp add: p95_index_def)
qed

lemma sort_Nil_iff: "(sort xs = []) = (xs = [])"
  by (metis length_sort length_0_conv)

lemma redraw_nonempty:
  assumes "points s \<noteq> []"
  shows "redraw s =
    Scale (sort (lat_vals s) ! nat (p95_index (sort (lat_vals s))))
          (max 20 (sort (lat_vals s) ! nat (p95_index (sort (lat_vals s)))))"
proof -
  have ne: "sort (lat_vals s) \<noteq> []"
    by (simp add: lat_vals_def Let_def sort_Nil_iff)
  have r: "0 \<le> p95_index (sort (lat_vals s)) \<and>
      p95_index (sort (lat_vals s)) < int (length (sort (lat_vals s)))"
    using ne by (rule p95_index_range)
  show ?thesis using assms ne r by (simp add: redraw_def Let_def max_def)
qed

text \<open>
  Claim C6, as the code has it. Nothing is computed for an empty window. For a window
  without a successful sample the scale is 20. Otherwise the percentile is the sample at
  index \<open>max(0, floor(0.95 * count) - 1)\<close> of the successful samples sorted ascending, and
  the scale is the larger of 20 and that percentile.
\<close>

theorem redraw_p95:
  "(points s0 = [] \<longrightarrow> redraw s0 = NoPoints)
   \<and> (points s1 \<noteq> [] \<and> map fst (filter snd (points s1)) = [] \<longrightarrow> redraw s1 = Scale 0 20)
   \<and> (map fst (filter snd (points s)) = v # vs \<longrightarrow>
        (let p95 = sort (v # vs) ! nat (max 0 (\<lfloor>real (length (v # vs)) * (95 / 100)\<rfloor> - 1))
         in redraw s = Scale p95 (max 20 p95)))"
proof (intro conjI impI)
  show "redraw s0 = NoPoints" if "points s0 = []"
    using that by (simp add: redraw_def)
  show "redraw s1 = Scale 0 20" if "points s1 \<noteq> [] \<and> map fst (filter snd (points s1)) = []"
  proof -
    have "lat_vals s1 = [0]" using that by (simp add: lat_vals_def)
    then show ?thesis using that by (simp add: redraw_nonempty p95_index_def)
  qed
  show "let p95 = sort (v # vs) ! nat (max 0 (\<lfloor>real (length (v # vs)) * (95 / 100)\<rfloor> - 1))
        in redraw s = Scale p95 (max 20 p95)"
    if h: "map fst (filter snd (points s)) = v # vs"
  proof -
    have ne: "points s \<noteq> []" using h by auto
    have lv: "lat_vals s = v # vs" using h by (simp add: lat_vals_def)
    have "sort (v # vs) \<noteq> []" by (simp only: sort_Nil_iff) simp
    then have "p95_index (sort (v # vs)) = max 0 (\<lfloor>real (length (v # vs)) * (95 / 100)\<rfloor> - 1)"
      by (simp add: p95_index_def del: sort_key_simps)
    then show ?thesis using redraw_nonempty [OF ne] by (simp only: lv Let_def)
  qed
qed

theorem redraw_p95_witness:
  "points \<lparr>max_points = 100, points = []\<rparr> = []
   \<and> redraw \<lparr>max_points = 100, points = []\<rparr> = NoPoints
   \<and> redraw \<lparr>max_points = 100, points = [(0, False)]\<rparr> = Scale 0 20
   \<and> map fst (filter snd (points \<lparr>max_points = 100, points = [(50, True), (0, False), (10, True)]\<rparr>))
       = [50, 10]
   \<and> redraw \<lparr>max_points = 100, points = [(50, True), (0, False), (10, True)]\<rparr> = Scale 10 20"
  using redraw_p95 [where ?s0.0 = "\<lparr>max_points = 100, points = []\<rparr>"
      and ?s1.0 = "\<lparr>max_points = 100, points = [(0, False)]\<rparr>"
      and s = "\<lparr>max_points = 100, points = [(50, True), (0, False), (10, True)]\<rparr>"
      and v = 50 and vs = "[10]"]
  by (simp add: Let_def)

text \<open>
  Claim C6 as stated takes the ceiling. With the two successful samples 10 and 50 the code
  reads index 0 and finds 10 (and a scale of 20), where the index of the claim is 1 and its
  sample 50.
\<close>

theorem redraw_p95_truncates:
  "redraw \<lparr>max_points = 100, points = [(10, True), (50, True)]\<rparr> = Scale 10 20
   \<and> sort [10, 50 :: real] ! nat (spec_p95_index 2) = 50"
  by (simp add: redraw_def lat_vals_def p95_index_def spec_p95_index_def Let_def)

lemma startable_fast:
  "\<not> (case worker panel_fast of None \<Rightarrow> False | Some w \<Rightarrow> w_alive w)
   \<and> strip (host (cfg panel_fast)) \<noteq> []"
  by (simp add: panel_fast_def HostPanel_init_def scenario_cfg_def strip_hosts)

lemma startable_slow:
  "\<not> (case worker panel_slow of None \<Rightarrow> False | Some w \<Rightarrow> w_alive w)
   \<and> strip (host (cfg panel_slow)) \<noteq> []"
  by (simp add: panel_slow_def HostPanel_init_def scenario_cfg_def strip_hosts)

lemma start_cfg:
  "\<not> (case worker p of None \<Rightarrow> False | Some w \<Rightarrow> w_alive w) \<Longrightarrow> strip (host (cfg p)) \<noteq> [] \<Longrightarrow>
     cfg (start p (d_interval, d_timeout)) =
       (cfg p)\<lparr>interval := max (1 / 2) d_interval, timeout := max (1 / 2) d_timeout\<rparr>"
  by (simp add: start_def Let_def)

lemma cycle_isl:
  "isl (cycle w e) =
     (\<not> env_socket_ok e \<or> timeout (env_cfg e) < 0 \<or> time_limit < timeout (env_cfg e))"
  by (simp add: cycle_def tcp_ping_def Let_def split: connect_outcome.splits)

lemma start_fast_slow:
  "cfg (start panel_fast (3, 2)) = scenario_cfg\<lparr>interval := 3\<rparr>"
  "cfg (start panel_slow (3, 2)) = scenario_cfg\<lparr>host := ''10.0.0.2'', interval := 3\<rparr>"
  using startable_fast startable_slow
  by (simp_all add: start_cfg)
    (simp_all add: panel_fast_def panel_slow_def HostPanel_init_def scenario_cfg_def)

lemma cycle_fast_slow:
  "cycle MonitorThread_init (panel_env (start panel_fast (3, 2)) (Connected 1) 0 0) =
     Inr (\<lparr>failures = 0,
           out_q = [\<lparr>m_ts = 0, m_ok = True, m_latency = Some 1, m_error = None,
                     m_host = ''10.0.0.1'', m_port = 22\<rparr>]\<rparr>, 3)"
  "cycle MonitorThread_init (panel_env (start panel_slow (3, 2)) (Connected 1) 0 0) =
     Inr (\<lparr>failures = 0,
           out_q = [\<lparr>m_ts = 0, m_ok = True, m_latency = Some 1, m_error = None,
                     m_host = ''10.0.0.2'', m_port = 22\<rparr>]\<rparr>, 3)"
proof -
  have l: "(2::real) \<le> time_limit" by (simp add: time_limit_def)
  show "cycle MonitorThread_init (panel_env (start panel_fast (3, 2)) (Connected 1) 0 0) =
     Inr (\<lparr>failures = 0,
           out_q = [\<lparr>m_ts = 0, m_ok = True, m_latency = Some 1, m_error = None,
                     m_host = ''10.0.0.1'', m_port = 22\<rparr>]\<rparr>, 3)"
    using l by (simp add: cycle_def tcp_ping_def panel_env_def start_fast_slow scenario_cfg_def
        MonitorThread_init_def backoff_def Let_def)
  show "cycle MonitorThread_init (panel_env (start panel_slow (3, 2)) (Connected 1) 0 0) =
     Inr (\<lparr>failures = 0,
           out_q = [\<lparr>m_ts = 0, m_ok = True, m_latency = Some 1, m_error = None,
                     m_host = ''10.0.0.2'', m_port = 22\<rparr>]\<rparr>, 3)"
    using l by (simp add: cycle_def tcp_ping_def panel_env_def start_fast_slow scenario_cfg_def
        MonitorThread_init_def backoff_def Let_def)
qed

text \<open>
  Claim C9, as the code has it. The thread reads its base interval from the panel's own
  configuration, but \<open>start\<close> has overwritten that interval with the application's default
  (at least 0.5): two panels started under the same default wait the same time after the
  same probe, whatever intervals they were configured with, and the probe of the one returns
  exactly when the probe of the other does.
\<close>

theorem start_uses_defaults:
  "\<not> (case worker p of None \<Rightarrow> False | Some w \<Rightarrow> w_alive w) \<and> strip (host (cfg p)) \<noteq> []
   \<and> \<not> (case worker q of None \<Rightarrow> False | Some w \<Rightarrow> w_alive w) \<and> strip (host (cfg q)) \<noteq> [] \<longrightarrow>
     interval (cfg (start p (d_interval, d_timeout))) = max (1 / 2) d_interval
     \<and> interval (cfg (start q (d_interval, d_timeout))) = max (1 / 2) d_interval
     \<and> interval (env_cfg (panel_env (start p (d_interval, d_timeout)) c ts elapsed))
         = interval (cfg (start p (d_interval, d_timeout)))
     \<and> (cycle w (panel_env (start p (d_interval, d_timeout)) c ts elapsed) = Inr (wp, wait_p) \<longrightarrow>
          wait_p = max 0 (backoff (max (1 / 2) d_interval) (failures wp) - elapsed))
     \<and> (cycle w (panel_env (start p (d_interval, d_timeout)) c ts elapsed) = Inr (wp, wait_p)
        \<and> cycle w (panel_env (start q (d_interval, d_timeout)) c ts elapsed) = Inr (wq, wait_q) \<longrightarrow>
          wait_p = wait_q)
     \<and> isl (cycle w (panel_env (start p (d_interval, d_timeout)) c ts elapsed))
         = isl (cycle w (panel_env (start q (d_interval, d_timeout)) c ts elapsed))"
proof (intro impI)
  assume h: "\<not> (case worker p of None \<Rightarrow> False | Some w \<Rightarrow> w_alive w) \<and> strip (host (cfg p)) \<noteq> []
   \<and> \<not> (case worker q of None \<Rightarrow> False | Some w \<Rightarrow> w_alive w) \<and> strip (host (cfg q)) \<noteq> []"
  let ?ep = "panel_env (start p (d_interval, d_timeout)) c ts elapsed"
  let ?eq = "panel_env (start q (d_interval, d_timeout)) c ts elapsed"
  have cp: "cfg (start p (d_interval, d_timeout)) =
      (cfg p)\<lparr>interval := max (1 / 2) d_interval, timeout := max (1 / 2) d_timeout\<rparr>"
    using h by (simp add: start_cfg)
  have cq: "cfg (start q (d_interval, d_timeout)) =
      (cfg q)\<lparr>interval := max (1 / 2) d_interval, timeout := max (1 / 2) d_timeout\<rparr>"
    using h by (simp add: start_cfg)
  have ip: "interval (env_cfg ?ep) = max (1 / 2) d_interval" "env_elapsed ?ep = elapsed"
      "env_connect ?ep = c"
    by (simp_all add: panel_env_def cp)
  have iq: "interval (env_cfg ?eq) = max (1 / 2) d_interval" "env_elapsed ?eq = elapsed"
      "env_connect ?eq = c"
    by (simp_all add: panel_env_def cq)
  have wp: "wait_p = max 0 (backoff (max (1 / 2) d_interval) (failures wp) - elapsed)"
    if "cycle w ?ep = Inr (wp, wait_p)"
    using cycle_returns(2) [OF that] by (simp add: ip)
  have wq: "wait_p = wait_q"
    if "cycle w ?ep = Inr (wp, wait_p) \<and> cycle w ?eq = Inr (wq, wait_q)"
  proof -
    have "failures wp = failures wq"
      using that cycle_returns(1) [of w ?ep wp wait_p] cycle_returns(1) [of w ?eq wq wait_q]
      by (simp add: ip iq)
    then show ?thesis
      using that cycle_returns(2) [of w ?ep wp wait_p] cycle_returns(2) [of w ?eq wq wait_q]
      by (simp add: ip iq)
  qed
  have il: "isl (cycle w ?ep) = isl (cycle w ?eq)"
    by (simp add: cycle_isl panel_env_def cp cq)
  show "interval (cfg (start p (d_interval, d_timeout))) = max (1 / 2) d_interval
     \<and> interval (cfg (start q (d_interval, d_timeout))) = max (1 / 2) d_interval
     \<and> interval (env_cfg ?ep) = interval (cfg (start p (d_interval, d_timeout)))
     \<and> (cycle w ?ep = Inr (wp, wait_p) \<longrightarrow>
          wait_p = max 0 (backoff (max (1 / 2) d_interval) (failures wp) - elapsed))
     \<and> (cycle w ?ep = Inr (wp, wait_p) \<and> cycle w ?eq = Inr (wq, wait_q) \<longrightarrow> wait_p = wait_q)
     \<and> isl (cycle w ?ep) = isl (cycle w ?eq)"
    using wp wq il by (simp add: cp cq panel_env_def)
qed

theorem start_uses_defaults_witness:
  "\<not> (case worker panel_fast of None \<Rightarrow> False | Some w \<Rightarrow> w_alive w)
   \<and> strip (host (cfg panel_fast)) \<noteq> []
   \<and> \<not> (case worker panel_slow of None \<Rightarrow> False | Some w \<Rightarrow> w_alive w)
   \<and> strip (host (cfg panel_slow)) \<noteq> []
   \<and> interval (cfg (start panel_fast (3, 2))) = 3
   \<and> interval (cfg (start panel_slow (3, 2))) = 3
   \<and> cycle MonitorThread_init (panel_env (start panel_fast (3, 2)) (Connected 1) 0 0) =
       Inr (\<lparr>failures = 0,
             out_q = [\<lparr>m_ts = 0, m_ok = True, m_latency = Some 1, m_error = None,
                       m_host = ''10.0.0.1'', m_port = 22\<rparr>]\<rparr>, 3)
   \<and> cycle MonitorThread_init (panel_env (start panel_slow (3, 2)) (Connected 1) 0 0) =
       Inr (\<lparr>failures = 0,
             out_q = [\<lparr>m_ts = 0, m_ok = True, m_latency = Some 1, m_error = None,
                       m_host = ''10.0.0.2'', m_port = 22\<rparr>]\<rparr>, 3)
   \<and> (3::real) = max 0 (backoff (max (1 / 2) 3) 0 - 0)"
proof -
  note t = start_uses_defaults [where p = panel_fast and q = panel_slow and d_interval = 3
      and d_timeout = 2 and c = "Connected 1" and ts = 0 and elapsed = 0
      and w = MonitorThread_init and wait_p = 3 and wait_q = 3
      and wp = "\<lparr>failures = 0,
             out_q = [\<lparr>m_ts = 0, m_ok = True, m_latency = Some 1, m_error = None,
                       m_host = ''10.0.0.1'', m_port = 22\<rparr>]\<rparr>"
      and wq = "\<lparr>failures = 0,
             out_q = [\<lparr>m_ts = 0, m_ok = True, m_latency = Some 1, m_error = None,
                       m_host = ''10.0.0.2'', m_port = 22\<rparr>]\<rparr>"]
  from t startable_fast startable_slow cycle_fast_slow show ?thesis by simp
qed

text \<open>
  Claim C9 as stated gives each host its own cadence. Two panels configured with intervals
  of 2 and 5 seconds and started under a default of 3 seconds both have interval 3 and
  both wait 3 seconds after a successful probe.
\<close>

theorem start_levels_intervals:
  "interval (cfg panel_fast) = 2 \<and> interval (cfg panel_slow) = 5
   \<and> interval (cfg (start panel_fast (3, 2))) = 3
   \<and> interval (cfg (start panel_slow (3, 2))) = 3
   \<and> cycle MonitorThread_init (panel_env (start panel_fast (3, 2)) (Connected 1) 0 0) =
       Inr (\<lparr>failures = 0,
             out_q = [\<lparr>m_ts = 0, m_ok = True, m_latency = Some 1, m_error = None,
                       m_host = ''10.0.0.1'', m_port = 22\<rparr>]\<rparr>, 3)
   \<and> cycle MonitorThread_init (panel_env (start panel_slow (3, 2)) (Connected 1) 0 0) =
       Inr (\<lparr>failures = 0,
             out_q = [\<lparr>m_ts = 0, m_ok = True, m_latency = Some 1, m_error = None,
                       m_host = ''10.0.0.2'', m_port = 22\<rparr>]\<rparr>, 3)"
proof -
  have c: "interval (cfg panel_fast) = 2 \<and> interval (cfg panel_slow) = 5"
    by (simp add: panel_fast_def panel_slow_def HostPanel_init_def scenario_cfg_def)
  show ?thesis
    using c cycle_fast_slow by (simp add: start_fast_slow)
qed

text \<open>
  Claim C8 fails on the code. A default timeout of \<open>1e10\<close> seconds passes the lower bound
  of \<open>start\<close>; \<open>s.settimeout(timeout)\<close>, which \<open>tcp_ping\<close> calls before its \<open>try\<close>,
  raises \<open>OverflowError\<close>, and nothing in \<open>run\<close> catches it: the thread ends on its first
  pass, with no message on the queue and no stop asked for. A default interval of \<open>1e10\<close>
  seconds ends it too: the first probe succeeds, its message is put on the queue, and the
  wait of \<open>1e10\<close> seconds raises.
\<close>

theorem worker_dies_without_stop:
  "timeout (cfg panel_long_timeout) = 10 ^ 10
   \<and> \<not> env_stop_set (panel_env panel_long_timeout (Connected 1) 0 0)
   \<and> \<not> env_stop_at_wait (panel_env panel_long_timeout (Connected 1) 0 0)
   \<and> \<not> env_stop_wait (panel_env panel_long_timeout (Connected 1) 0 0)
   \<and> run MonitorThread_init [panel_env panel_long_timeout (Connected 1) 0 0] =
       (Died OverflowError, MonitorThread_init, [])
   \<and> interval (cfg panel_long_interval) = 10 ^ 10
   \<and> run MonitorThread_init [panel_env panel_long_interval (Connected 1) 0 0] =
       (Died OverflowError,
        \<lparr>failures = 0,
          out_q = [\<lparr>m_ts = 0, m_ok = True, m_latency = Some 1, m_error = None,
                    m_host = ''10.0.0.1'', m_port = 22\<rparr>]\<rparr>,
        [10 ^ 10])"
proof -
  have l: "(2::real) \<le> time_limit" "time_limit < 10 ^ 10" by (simp_all add: time_limit_def)
  let ?et = "panel_env panel_long_timeout (Connected 1) 0 0"
  let ?ei = "panel_env panel_long_interval (Connected 1) 0 0"
  have ns: "\<not> env_stop_set ?et" "\<not> env_stop_at_wait ?et" "\<not> env_stop_wait ?et" "\<not> env_stop_set ?ei"
    by (simp_all add: panel_env_def)
  have ct: "cycle MonitorThread_init ?et = Inl OverflowError"
    using l by (simp add: cycle_def tcp_ping_def panel_env_def panel_long_cfg scenario_cfg_def)
  have ci: "cycle MonitorThread_init ?ei =
      Inr (\<lparr>failures = 0,
            out_q = [\<lparr>m_ts = 0, m_ok = True, m_latency = Some 1, m_error = None,
                      m_host = ''10.0.0.1'', m_port = 22\<rparr>]\<rparr>, 10 ^ 10)"
    using l by (simp add: cycle_def tcp_ping_def panel_env_def panel_long_cfg scenario_cfg_def
        MonitorThread_init_def backoff_def Let_def)
  have wi: "stop_wait ?ei (10 ^ 10) = Inl OverflowError"
    using l by (simp add: stop_wait_def panel_env_def)
  have t: "timeout (cfg panel_long_timeout) = 10 ^ 10" "interval (cfg panel_long_interval) = 10 ^ 10"
    by (simp_all add: panel_long_cfg)
  from ns t run_probe_raises [OF ns(1) ct] run_wait_raises [OF ns(4) ci wi]
  show ?thesis by simp
qed

text \<open>
  Claim C10. When the host is empty after stripping, \<open>start\<close> returns the panel as it was:
  no worker is set, the queue is the one it had, so nothing will ever be put on it, and there
  is no error branch.
\<close>

theorem start_blank_host_noop:
  "strip (host (cfg p)) = [] \<longrightarrow>
     start p defaults = p \<and> worker (start p defaults) = worker p
     \<and> p_out_q (start p defaults) = p_out_q p"
  by (simp add: start_def)

theorem start_blank_host_noop_witness:
  "strip (host (cfg (HostPanel_init (scenario_cfg\<lparr>host := ''  ''\<rparr>)))) = []
   \<and> start (HostPanel_init (scenario_cfg\<lparr>host := ''  ''\<rparr>)) (2, 2)
       = HostPanel_init (scenario_cfg\<lparr>host := ''  ''\<rparr>)
   \<and> worker (start (HostPanel_init (scenario_cfg\<lparr>host := ''  ''\<rparr>)) (2, 2)) = None
   \<and> p_out_q (start (HostPanel_init (scenario_cfg\<lparr>host := ''  ''\<rparr>)) (2, 2)) = []"
  using start_blank_host_noop [of "HostPanel_init (scenario_cfg\<lparr>host := ''  ''\<rparr>)" "(2, 2)"]
  by (simp add: HostPanel_init_def strip_def isspace_def)

section \<open>Properties of the ordering\<close>

lemma k_status_le: "k_status p \<le> k_status q \<longleftrightarrow> status_before p q"
  by (auto simp: k_status_def status_before_def get_cfg_def)

lemma status_before_total: "status_before p q \<or> status_before q p"
  unfolding k_status_le [symmetric] by (rule linear)

lemma sort_panels_mset: "mset (sort_panels key ps) = mset ps"
  by (simp add: sort_panels_def)

lemma sort_panels_idem: "sort_panels key (sort_panels key ps) = sort_panels key ps"
  by (simp add: sort_panels_def sort_key_id_if_sorted)

lemma sort_panels_status:
  "key \<noteq> ''latency'' \<Longrightarrow> key \<noteq> ''host'' \<Longrightarrow> sorted_wrt status_before (sort_panels key ps)"
proof -
  assume "key \<noteq> ''latency''" "key \<noteq> ''host''"
  then have "sort_panels key ps = sort_key k_status ps" by (simp add: sort_panels_def)
  moreover have "sorted (map k_status (sort_key k_status ps))" by simp
  ultimately show ?thesis by (simp add: sorted_map k_status_le)
qed

lemma filter_key_single:
  "distinct (map f xs) \<Longrightarrow> k \<in> set xs \<Longrightarrow> filter (\<lambda>x. f k = f x) xs = [k]"
proof (induction xs)
  case Nil
  then show ?case by simp
next
  case (Cons x xs)
  show ?case
  proof (cases "k = x")
    case True
    have "filter (\<lambda>y. f x = f y) xs = []"
      using Cons.prems(1) by (auto simp: filter_empty_conv)
    then show ?thesis using True by simp
  next
    case False
    then have "k \<in> set xs" using Cons.prems(2) by simp
    have "f x \<notin> set (map f xs)" using Cons.prems(1) by simp
    moreover have "f k \<in> set (map f xs)" using \<open>k \<in> set xs\<close> by simp
    ultimately have "f k \<noteq> f x" by metis
    then show ?thesis using Cons \<open>k \<in> set xs\<close> by simp
  qed
qed

lemma sort_key_determined:
  assumes d: "distinct (map f xs)" and m: "mset ys = mset xs"
  shows "sort_key f ys = sort_key f xs"
proof (rule properties_for_sort_key)
  show "mset (sort_key f xs) = mset ys" using m by simp
  show "sorted (map f (sort_key f xs))" by simp
  fix k assume "k \<in> set (sort_key f xs)"
  then have kx: "k \<in> set xs" by simp
  then have ky: "k \<in> set ys" using m by (metis set_mset_mset)
  have "mset (map f ys) = mset (map f xs)" using m by simp
  then have dy: "distinct (map f ys)" using d by (metis distinct_count_atmost_1 set_mset_mset)
  have "filter (\<lambda>x. f k = f x) (sort_key f xs) = filter (\<lambda>x. f k = f x) xs"
    by (simp add: filter_sort filter_key_single [OF d kx])
  then show "filter (\<lambda>x. f k = f x) (sort_key f xs) = filter (\<lambda>x. f k = f x) ys"
    by (simp add: filter_key_single [OF d kx] filter_key_single [OF dy ky])
qed

lemma distinct_map_snd_key:
  assumes "distinct (map (\<lambda>x. g (f x)) xs)"
  shows "distinct (map f xs)"
proof -
  have "distinct xs" "inj_on (\<lambda>x. g (f x)) (set xs)" using assms by (simp_all add: distinct_map)
  moreover have "inj_on f (set xs)"
    using \<open>inj_on (\<lambda>x. g (f x)) (set xs)\<close> by (auto simp: inj_on_def)
  ultimately show ?thesis by (simp add: distinct_map)
qed

lemma sort_panels_determined:
  assumes d: "distinct (map k_host ps)" and m: "mset qs = mset ps"
  shows "sort_panels key qs = sort_panels key ps"
proof -
  have "k_host = (\<lambda>p. snd (k_latency p))" by (simp add: k_host_def k_latency_def fun_eq_iff)
  then have dl: "distinct (map k_latency ps)" using d distinct_map_snd_key [of snd k_latency ps] by simp
  have "k_host = (\<lambda>p. snd (snd (k_status p)))" by (simp add: k_host_def k_status_def fun_eq_iff)
  then have ds: "distinct (map k_status ps)"
    using d distinct_map_snd_key [of "\<lambda>k. snd (snd k)" k_status ps] by simp
  show ?thesis
    using sort_key_determined [OF d m] sort_key_determined [OF dl m] sort_key_determined [OF ds m]
    by (simp add: sort_panels_def)
qed

lemma sort_panels_stable:
  "key \<noteq> ''latency'' \<and> key \<noteq> ''host'' \<Longrightarrow>
     filter (\<lambda>x. k_status x = k) (sort_panels key ps) = filter (\<lambda>x. k_status x = k) ps"
  "filter (\<lambda>x. k_latency x = kl) (sort_panels ''latency'' ps) = filter (\<lambda>x. k_latency x = kl) ps"
  "filter (\<lambda>x. k_host x = kh) (sort_panels ''host'' ps) = filter (\<lambda>x. k_host x = kh) ps"
  by (simp_all add: sort_panels_def sort_key_stable)

text \<open>
  Claim C7, as the code has it. The keys are those of the three modes, \<open>status\<close> being the
  mode of every key other than \<open>latency\<close> and \<open>host\<close>: online before offline, then latency,
  then lower-case host name. The result is ordered by the key, any two panels are comparable,
  the result holds the same panels, and sorting a sorted list changes nothing. Panels with
  the same key stay in the order they had. When the lower-case host names are all different
  the result depends only on which panels there are, not on the order they came in.
\<close>

theorem sort_panels_order:
  "k_status p = (\<not> last_ok p, last_latency p, lower (host (cfg p)))
   \<and> k_latency p = (last_latency p, lower (host (cfg p)))
   \<and> k_host p = lower (host (cfg p))
   \<and> (key \<noteq> ''latency'' \<and> key \<noteq> ''host'' \<longrightarrow> sorted_wrt status_before (sort_panels key ps))
   \<and> sorted (map k_latency (sort_panels ''latency'' ps))
   \<and> sorted (map k_host (sort_panels ''host'' ps))
   \<and> (status_before p q \<or> status_before q p)
   \<and> mset (sort_panels key ps) = mset ps
   \<and> sort_panels key (sort_panels key ps) = sort_panels key ps
   \<and> (key \<noteq> ''latency'' \<and> key \<noteq> ''host'' \<longrightarrow>
        filter (\<lambda>x. k_status x = k_status p) (sort_panels key ps) =
        filter (\<lambda>x. k_status x = k_status p) ps)
   \<and> filter (\<lambda>x. k_latency x = k_latency p) (sort_panels ''latency'' ps) =
      filter (\<lambda>x. k_latency x = k_latency p) ps
   \<and> filter (\<lambda>x. k_host x = k_host p) (sort_panels ''host'' ps) =
      filter (\<lambda>x. k_host x = k_host p) ps
   \<and> (distinct (map k_host ps) \<and> mset qs = mset ps \<longrightarrow> sort_panels key qs = sort_panels key ps)"
proof (intro conjI impI)
  show "k_status p = (\<not> last_ok p, last_latency p, lower (host (cfg p)))"
    by (simp add: k_status_def get_cfg_def)
  show "k_latency p = (last_latency p, lower (host (cfg p)))"
    by (simp add: k_latency_def get_cfg_def)
  show "k_host p = lower (host (cfg p))"
    by (simp add: k_host_def get_cfg_def)
  show "sorted_wrt status_before (sort_panels key ps)" if "key \<noteq> ''latency'' \<and> key \<noteq> ''host''"
    using that by (simp add: sort_panels_status)
  show "sorted (map k_latency (sort_panels ''latency'' ps))" by (simp add: sort_panels_def)
  show "sorted (map k_host (sort_panels ''host'' ps))" by (simp add: sort_panels_def)
  show "status_before p q \<or> status_before q p" by (rule status_before_total)
  show "mset (sort_panels key ps) = mset ps" by (rule sort_panels_mset)
  show "sort_panels key (sort_panels key ps) = sort_panels key ps" by (rule sort_panels_idem)
  show "filter (\<lambda>x. k_status x = k_status p) (sort_panels key ps) =
        filter (\<lambda>x. k_status x = k_status p) ps" if "key \<noteq> ''latency'' \<and> key \<noteq> ''host''"
    using that by (rule sort_panels_stable(1))
  show "filter (\<lambda>x. k_latency x = k_latency p) (sort_panels ''latency'' ps) =
      filter (\<lambda>x. k_latency x = k_latency p) ps"
    by (rule sort_panels_stable(2))
  show "filter (\<lambda>x. k_host x = k_host p) (sort_panels ''host'' ps) =
      filter (\<lambda>x. k_host x = k_host p) ps"
    by (rule sort_panels_stable(3))
  show "sort_panels key qs = sort_panels key ps" if "distinct (map k_host ps) \<and> mset qs = mset ps"
    using that sort_panels_determined by blast
qed

lemma lower_hosts:
  "lower ''10.0.0.1'' = ''10.0.0.1''" "lower ''Zeta.example'' = ''zeta.example''"
  "lower ''alpha.example'' = ''alpha.example''"
  by code_simp+

lemma k_status_a: "k_status panel_a = (True, 10 ^ 12, ''10.0.0.1'')"
  by (simp add: k_status_def last_ok_def last_latency_def get_cfg_def panel_a_fields
      scenario_cfg_def lower_hosts)

lemma k_status_b: "k_status panel_b = (True, 10 ^ 12, ''10.0.0.1'')"
  by (simp add: k_status_def last_ok_def last_latency_def get_cfg_def panel_b_fields
      scenario_cfg_def lower_hosts)

lemma k_status_zeta: "k_status panel_zeta = (True, 10 ^ 12, ''zeta.example'')"
  by (simp add: k_status_def last_ok_def last_latency_def get_cfg_def panel_zeta_fields
      scenario_cfg_def lower_hosts)

lemma k_status_alpha: "k_status panel_alpha = (True, 10 ^ 12, ''alpha.example'')"
  by (simp add: k_status_def last_ok_def last_latency_def get_cfg_def panel_alpha_fields
      scenario_cfg_def lower_hosts)

lemma k_host_zeta_alpha:
  "k_host panel_zeta = ''zeta.example''" "k_host panel_alpha = ''alpha.example''"
  by (simp_all add: k_host_def get_cfg_def panel_zeta_fields panel_alpha_fields
      scenario_cfg_def lower_hosts)

lemma host_order: "''alpha.example'' \<le> ''zeta.example''" "\<not> ''zeta.example'' \<le> ''alpha.example''"
  "''Zeta.example'' \<le> ''alpha.example''"
  by code_simp+

lemma panel_a_b_differ: "panel_a \<noteq> panel_b"
proof
  assume "panel_a = panel_b"
  then have "port (cfg panel_a) = port (cfg panel_b)" by simp
  then show False by (simp add: panel_a_fields panel_b_fields scenario_cfg_def)
qed

text \<open>
  Claim C7 as stated has every tie broken by the host name. Two panels on one host with
  different ports have the same key; the sort keeps them in the order they came in, either
  way round.
\<close>

theorem sort_panels_same_host:
  "sort_panels ''status'' [panel_a, panel_b] = [panel_a, panel_b]
   \<and> sort_panels ''status'' [panel_b, panel_a] = [panel_b, panel_a]
   \<and> panel_a \<noteq> panel_b
   \<and> k_status panel_a = k_status panel_b"
  by (simp add: sort_panels_def k_status_a k_status_b panel_a_b_differ)

text \<open>
  Two panels without a result tie on status and latency, and the lower-case host name puts
  \<open>alpha.example\<close> before \<open>Zeta.example\<close>, whichever came first, although the capital Z
  is below the small a. Two panels on one host keep the order they came in.
\<close>

theorem sort_panels_order_witness:
  "''status'' \<noteq> ''latency'' \<and> ''status'' \<noteq> ''host''
   \<and> distinct (map k_host [panel_zeta, panel_alpha])
   \<and> mset [panel_alpha, panel_zeta] = mset [panel_zeta, panel_alpha]
   \<and> k_status panel_zeta = (True, 10 ^ 12, ''zeta.example'')
   \<and> k_status panel_alpha = (True, 10 ^ 12, ''alpha.example'')
   \<and> ''Zeta.example'' \<le> ''alpha.example''
   \<and> sort_panels ''status'' [panel_zeta, panel_alpha] = [panel_alpha, panel_zeta]
   \<and> sort_panels ''status'' [panel_alpha, panel_zeta] = [panel_alpha, panel_zeta]
   \<and> sorted_wrt status_before [panel_alpha, panel_zeta]
   \<and> filter (\<lambda>x. k_status x = k_status panel_a) (sort_panels ''status'' [panel_b, panel_a])
       = [panel_b, panel_a]"
proof -
  have h1: "''status'' \<noteq> ''latency'' \<and> ''status'' \<noteq> ''host''" by simp
  have h2: "distinct (map k_host [panel_zeta, panel_alpha])
      \<and> mset [panel_alpha, panel_zeta] = mset [panel_zeta, panel_alpha]"
    by (simp add: k_host_zeta_alpha)
  note t = sort_panels_order [where key = "''status''" and ps = "[panel_zeta, panel_alpha]"
      and qs = "[panel_alpha, panel_zeta]" and p = panel_alpha and q = panel_zeta]
  note u = sort_panels_order [where key = "''status''" and ps = "[panel_b, panel_a]"
      and qs = "[panel_b, panel_a]" and p = panel_a and q = panel_b]
  have v: "sort_panels ''status'' [panel_zeta, panel_alpha] = [panel_alpha, panel_zeta]"
    by (simp add: sort_panels_def k_status_zeta k_status_alpha host_order)
  from t h1 have "sorted_wrt status_before (sort_panels ''status'' [panel_zeta, panel_alpha])"
    by blast
  then have s: "sorted_wrt status_before [panel_alpha, panel_zeta]" by (simp only: v)
  from t h2 have "sort_panels ''status'' [panel_alpha, panel_zeta] =
      sort_panels ''status'' [panel_zeta, panel_alpha]"
    by blast
  then have e: "sort_panels ''status'' [panel_alpha, panel_zeta] = [panel_alpha, panel_zeta]"
    by (simp only: v)
  from u h1 have "filter (\<lambda>x. k_status x = k_status panel_a) (sort_panels ''status'' [panel_b, panel_a])
      = filter (\<lambda>x. k_status x = k_status panel_a) [panel_b, panel_a]"
    by blast
  then have f: "filter (\<lambda>x. k_status x = k_status panel_a)
      (sort_panels ''status'' [panel_b, panel_a]) = [panel_b, panel_a]"
    by (simp add: k_status_a k_status_b)
  from h1 h2 k_status_zeta k_status_alpha host_order(3) v e s f show ?thesis by blast
qed

end
